theory Spec2Isabelle
  imports Main "HOL-Library.Word" "HOL-Library.Sublist" "HOL-Library.Multiset"
begin

section \<open>Strings\<close>

text \<open>
  A JavaScript string is a sequence of 16-bit code units. \<open>startsWith\<close>, \<open>+\<close>, template
  literals and a regular expression without the \<open>u\<close> flag all work on code units, so
  the model is a list of 16-bit words. \<open>str\<close> writes an ASCII literal of the source.
\<close>

type_synonym jschar = "16 word"
type_synonym jsstring = "jschar list"

definition str :: "string \<Rightarrow> jsstring" where
  "str cs = map (\<lambda>c. of_nat (of_char c)) cs"

text \<open>
  \<open>String.prototype.startsWith(searchString)\<close> at position 0: the code units of
  \<open>searchString\<close> are compared with the first code units of the receiver.
\<close>

fun startsWith :: "jsstring \<Rightarrow> jsstring \<Rightarrow> bool" where
  "startsWith s [] = True"
| "startsWith [] (p # ps) = False"
| "startsWith (c # s) (p # ps) = (c = p \<and> startsWith s ps)"

text \<open>
  The decimal digits of a natural number. This is how \<open>+\<close> and a template literal render
  a Number that holds a non-negative integer below \<open>2^53\<close>: a double holds such an integer
  exactly and Number::toString prints all its digits. (Above \<open>2^53\<close> the shortest
  round-trip digits are printed, and from \<open>10^21\<close> on exponent notation.) The length of an
  array is below \<open>2^32\<close>.
\<close>

fun digits :: "nat \<Rightarrow> jsstring" where
  "digits n =
     (if n < 10 then [of_nat (48 + n)] else digits (n div 10) @ [of_nat (48 + n mod 10)])"

text \<open>
  The number of an issue or pull request is a JSON integer that the program holds in a
  Number. The model takes the safe integers \<open>0 \<le> n < 2^53\<close>, which are the values of a
  53-bit word; on all of them \<open>numberToString\<close> is what JavaScript prints.
\<close>

type_synonym jsnumber = "53 word"

definition numberToString :: "jsnumber \<Rightarrow> jsstring" where
  "numberToString n = digits (unat n)"

section \<open>Data model\<close>

text \<open>The classes \<open>PotentialTask\<close> and \<open>CurrentTask\<close> of \<open>main.js\<close>.\<close>

record PotentialTask =
  prefix :: jsstring
  title :: jsstring
  body :: jsstring

record CurrentTask =
  id :: jsstring
  title :: jsstring

text \<open>
  What \<open>main\<close> reads of an issue returned by \<open>octokit.issues.list\<close>
  (\<open>iss.repository.full_name\<close>, \<open>iss.number\<close>, \<open>iss.title\<close>, \<open>iss.html_url\<close>) and of an
  item returned by \<open>octokit.search.issuesAndPullRequests\<close>.
\<close>

record Issue =
  full_name :: jsstring
  number :: jsnumber
  title :: jsstring
  html_url :: jsstring

record PullRequest =
  html_url :: jsstring
  number :: jsnumber
  title :: jsstring

section \<open>The reconciliation filters\<close>

text \<open>
  The filter of \<open>addNewIssues\<close> (lines 146 to 149):
  \<^verbatim>\<open>issues.filter(iss => !currentTasks.some(e => e.title.startsWith(iss.prefix)))\<close>
  The specification calls it \<open>planCreations(remote, local)\<close>.
\<close>

definition planCreations :: "PotentialTask list \<Rightarrow> CurrentTask list \<Rightarrow> PotentialTask list" where
  "planCreations issues currentTasks =
     filter (\<lambda>iss. \<not> list_ex (\<lambda>e. startsWith (CurrentTask.title e) (PotentialTask.prefix iss))
                      currentTasks) issues"

text \<open>
  The filter of \<open>completeMissingIssues\<close> (lines 174 to 181):
  \<^verbatim>\<open>const issuePrefixes = issues.map(iss => iss.prefix)
  currentTasks.filter((t) => !issuePrefixes.some(e => t.title.startsWith(e)))\<close>
  The specification calls it \<open>planRetirements(local, remote)\<close>.
\<close>

definition planRetirements :: "CurrentTask list \<Rightarrow> PotentialTask list \<Rightarrow> CurrentTask list" where
  "planRetirements currentTasks issues =
     (let issuePrefixes = map PotentialTask.prefix issues
      in filter (\<lambda>t. \<not> list_ex (\<lambda>e. startsWith (CurrentTask.title t) e) issuePrefixes)
           currentTasks)"

text \<open>
  The remote items that some local title matches: the complement of \<open>planCreations\<close>
  within the remote list, written with the specification's \<open>matched(r, L)\<close>.
\<close>

definition matched :: "PotentialTask \<Rightarrow> CurrentTask list \<Rightarrow> bool" where
  "matched r L = list_ex (\<lambda>l. startsWith (CurrentTask.title l) (PotentialTask.prefix r)) L"

definition matchedSubset :: "PotentialTask list \<Rightarrow> CurrentTask list \<Rightarrow> PotentialTask list" where
  "matchedSubset R L = filter (\<lambda>r. matched r L) R"

section \<open>Constructing the potential tasks\<close>

text \<open>
  The callback of \<open>results.data.map\<close> for issues (lines 63 to 70):
  \<^verbatim>\<open>const prefix = iss.repository.full_name + "#" + iss.number
  potentialTask.prefix = prefix
  potentialTask.title = `${prefix} ${iss.title}`
  potentialTask.body = iss.html_url\<close>
\<close>

definition issueTask :: "Issue \<Rightarrow> PotentialTask" where
  "issueTask iss =
     (let prefix = Issue.full_name iss @ str ''#'' @ numberToString (Issue.number iss)
      in \<lparr>prefix = prefix,
          title = prefix @ str '' '' @ Issue.title iss,
          body = Issue.html_url iss\<rparr>)"


section \<open>Errors\<close>

text \<open>
  The errors a run can meet. \<open>TypeError\<close> is what reading a property of \<open>null\<close> throws.
  \<open>Rejection\<close> is the reason with which a call to a collaborator (Octokit, the OmniFocus
  bridge) fails. \<open>MalformedReferenceError\<close> is the error class the specification names
  for the identity extractor; no statement of \<open>main.js\<close> throws it.
\<close>

datatype error = TypeError | MalformedReferenceError | Rejection jsstring

section \<open>The regular expression of the pull request prefix\<close>

text \<open>
  \<^verbatim>\<open>/^https:\/\/github[^\0]ibm[^\0]com\/([^\/]+)\/([^\/]+)/m\<close>
  is a sequence of four kinds of terms: the assertion \<open>^\<close> (with the flag \<open>m\<close>), a
  pattern character, a negated class of one character (\<open>[^\0]\<close>), and a capturing group
  around a greedy \<open>+\<close> of such a class (\<open>([^\/]+)\<close>).
\<close>

datatype item = Bol | Chr jschar | NotChr jschar | GroupPlusNot jschar

type_synonym captures = "jsstring list"

text \<open>
  A matcher continuation takes the code unit before the current position (\<open>None\<close> at
  index 0), the rest of the input and the captures so far.
\<close>

type_synonym cont = "jschar option \<Rightarrow> jsstring \<Rightarrow> captures \<Rightarrow> captures option"

text \<open>ECMAScript's LineTerminator: LF, CR, LS and PS.\<close>

definition lineTerminator :: "jschar \<Rightarrow> bool" where
  "lineTerminator c \<longleftrightarrow> c = 0x000A \<or> c = 0x000D \<or> c = 0x2028 \<or> c = 0x2029"

text \<open>The assertion \<open>^\<close> under the flag \<open>m\<close>: index 0, or just after a line terminator.\<close>

fun atLineStart :: "jschar option \<Rightarrow> bool" where
  "atLineStart None = True"
| "atLineStart (Some c) = lineTerminator c"

text \<open>
  ECMAScript's RepeatMatcher for a greedy quantifier once its minimum is met: try the
  atom once more and go on repeating; when that fails, call the continuation here.
  \<open>acc\<close> is what the enclosing group has consumed.
\<close>

fun repeatMatcher ::
  "jschar \<Rightarrow> cont \<Rightarrow> jschar option \<Rightarrow> jsstring \<Rightarrow> jsstring \<Rightarrow> captures \<Rightarrow> captures option" where
  "repeatMatcher c k prev [] acc caps = k prev [] (caps @ [acc])"
| "repeatMatcher c k prev (x # xs) acc caps =
     (if x \<noteq> c then
        (case repeatMatcher c k (Some x) xs (acc @ [x]) caps of
           Some r \<Rightarrow> Some r
         | None \<Rightarrow> k prev (x # xs) (caps @ [acc]))
      else k prev (x # xs) (caps @ [acc]))"

fun step :: "item \<Rightarrow> cont \<Rightarrow> cont" where
  "step Bol k prev s caps = (if atLineStart prev then k prev s caps else None)"
| "step (Chr c) k prev [] caps = None"
| "step (Chr c) k prev (x # xs) caps = (if x = c then k (Some x) xs caps else None)"
| "step (NotChr c) k prev [] caps = None"
| "step (NotChr c) k prev (x # xs) caps = (if x \<noteq> c then k (Some x) xs caps else None)"
| "step (GroupPlusNot c) k prev [] caps = None"
| "step (GroupPlusNot c) k prev (x # xs) caps =
     (if x \<noteq> c then repeatMatcher c k (Some x) xs [x] caps else None)"

primrec matchItems :: "item list \<Rightarrow> cont" where
  "matchItems [] = (\<lambda>prev s caps. Some caps)"
| "matchItems (i # is) = step i (matchItems is)"

text \<open>
  \<open>String.prototype.match\<close> with a regular expression that has no \<open>g\<close> flag is
  \<open>RegExp.prototype.exec\<close> from \<open>lastIndex = 0\<close>: the pattern is tried at index 0, 1, ...
  up to the length of the input, and the first success is the result; \<open>None\<close> is the
  \<open>null\<close> of no match.
\<close>

fun regExpExec :: "item list \<Rightarrow> jschar option \<Rightarrow> jsstring \<Rightarrow> captures option" where
  "regExpExec p prev [] = matchItems p prev [] []"
| "regExpExec p prev (x # xs) =
     (case matchItems p prev (x # xs) [] of
        Some r \<Rightarrow> Some r
      | None \<Rightarrow> regExpExec p (Some x) xs)"

definition slash :: jschar where
  "slash = 0x2F"

definition pattern :: "item list" where
  "pattern = Bol # map Chr (str ''https://github'') @ [NotChr 0] @ map Chr (str ''ibm'') @
     [NotChr 0] @ map Chr (str ''com/'') @ [GroupPlusNot slash, Chr slash, GroupPlusNot slash]"

text \<open>
  \<open>m[i + 1]\<close> inside a template literal: the capture, or the text \<open>undefined\<close> when the
  match array has no such element.
\<close>

fun capture :: "captures \<Rightarrow> nat \<Rightarrow> jsstring" where
  "capture [] n = str ''undefined''"
| "capture (g # gs) 0 = g"
| "capture (g # gs) (Suc n) = capture gs n"

text \<open>
  The function \<open>prefix\<close> of \<open>main\<close> (lines 97 to 100):
  \<^verbatim>\<open>const m = t.html_url.match(/^https:\/\/github[^\0]ibm[^\0]com\/([^\/]+)\/([^\/]+)/m)
  return `${m[1]}/${m[2]}#${t.number}`\<close>
  When nothing matches, \<open>m\<close> is \<open>null\<close> and \<open>m[1]\<close> throws a TypeError. It is named
  \<open>pr_prefix\<close> here, \<open>prefix\<close> being the field of \<open>PotentialTask\<close>.
\<close>

definition pr_prefix :: "PullRequest \<Rightarrow> error + jsstring" where
  "pr_prefix t =
     (case regExpExec pattern None (PullRequest.html_url t) of
        None \<Rightarrow> Inl TypeError
      | Some m \<Rightarrow>
          Inr (capture m 0 @ str ''/'' @ capture m 1 @ str ''#'' @ numberToString (PullRequest.number t)))"

text \<open>
  The callback of \<open>results.data.items.map\<close> for pull requests (lines 104 to 110); it
  calls \<open>prefix(pr)\<close> twice, and an exception of either call leaves the callback.
\<close>

definition prTask :: "PullRequest \<Rightarrow> error + PotentialTask" where
  "prTask pr =
     (case pr_prefix pr of
        Inl err \<Rightarrow> Inl err
      | Inr p1 \<Rightarrow>
          (case pr_prefix pr of
             Inl err \<Rightarrow> Inl err
           | Inr p2 \<Rightarrow>
               Inr \<lparr>prefix = p1,
                    title = p2 @ str '' '' @ PullRequest.title pr,
                    body = PullRequest.html_url pr\<rparr>))"

text \<open>\<open>Array.prototype.map\<close> with a callback that can throw: the first exception ends it.\<close>

fun prTasks :: "PullRequest list \<Rightarrow> error + PotentialTask list" where
  "prTasks [] = Inr []"
| "prTasks (pr # prs) =
     (case prTask pr of
        Inl err \<Rightarrow> Inl err
      | Inr t \<Rightarrow> (case prTasks prs of Inl err \<Rightarrow> Inl err | Inr ts \<Rightarrow> Inr (t # ts)))"

text \<open>
  The language of the regular expression of the source, in words. The pattern matches at
  a position of the URL (after \<open>pre\<close>, before \<open>suf\<close>) when the position is the start of a
  line and there stand \<open>https://github\<close>, one code unit other than NUL, \<open>ibm\<close>, one code
  unit other than NUL, \<open>com/\<close>, a non-empty segment without \<open>/\<close>, a \<open>/\<close>, and a second
  non-empty segment without \<open>/\<close>. The pattern is lenient: it does not ask for the two
  dots of the host, nor that the match begins the URL.
\<close>

definition urlHead :: "jschar \<Rightarrow> jschar \<Rightarrow> jsstring" where
  "urlHead c1 c2 = str ''https://github'' @ c1 # str ''ibm'' @ c2 # str ''com/''"

definition matchesAt :: "jsstring \<Rightarrow> jsstring \<Rightarrow> bool" where
  "matchesAt pre suf \<longleftrightarrow>
     (pre = [] \<or> lineTerminator (last pre)) \<and>
     (\<exists>c1 c2 org repo rest.
        suf = urlHead c1 c2 @ org @ slash # repo @ rest \<and> c1 \<noteq> 0 \<and> c2 \<noteq> 0 \<and>
        org \<noteq> [] \<and> slash \<notin> set org \<and> repo \<noteq> [] \<and> slash \<notin> set repo)"

definition matchesPattern :: "jsstring \<Rightarrow> bool" where
  "matchesPattern u \<longleftrightarrow> (\<exists>pre suf. u = pre @ suf \<and> matchesAt pre suf)"

text \<open>
  The reference the specification expects, in its words a URL of the expected namespace
  with an organisation and a repository path segment: the URL begins with
  \<open>https://github.ibm.com/\<close>, a non-empty organisation segment, \<open>/\<close> and a non-empty
  repository segment that runs to the next \<open>/\<close> or to the end. Every other URL is
  malformed. This predicate is the specification's side; it is not read off the regular
  expression.
\<close>

definition wellFormed :: "jsstring \<Rightarrow> bool" where
  "wellFormed u \<longleftrightarrow>
     (\<exists>org repo rest.
        u = str ''https://github.ibm.com/'' @ org @ slash # repo @ rest \<and>
        org \<noteq> [] \<and> slash \<notin> set org \<and> repo \<noteq> [] \<and> slash \<notin> set repo \<and>
        (rest = [] \<or> hd rest = slash))"

text \<open>
  The two path segments behind \<open>com/\<close>, computed directly: the longest run without \<open>/\<close>,
  a \<open>/\<close>, and the longest run without \<open>/\<close> after it. The matcher is proved equal to it.
\<close>

definition pathSegments :: "jsstring \<Rightarrow> captures option" where
  "pathSegments s =
     (let org = takeWhile (\<lambda>x. x \<noteq> slash) s in
      if org = [] then None
      else (case dropWhile (\<lambda>x. x \<noteq> slash) s of
              [] \<Rightarrow> None
            | y # ys \<Rightarrow>
                (let repo = takeWhile (\<lambda>x. x \<noteq> slash) ys in
                 if repo = [] then None else Some [org, repo])))"

text \<open>
  The code unit that stands before the suffix \<open>suf\<close> of an input \<open>pre @ suf\<close>, when
  \<open>prev\<close> stands before the input.
\<close>

fun prevOf :: "jschar option \<Rightarrow> jsstring \<Rightarrow> jschar option" where
  "prevOf prev [] = prev"
| "prevOf prev (x # xs) = prevOf (Some x) xs"

section \<open>The orchestrator\<close>

text \<open>
  What a run does to the outside is a trace of events: the calls it issues to Octokit
  and to the OmniFocus bridge \<open>./omnifocus\<close>, and what it prints.
\<close>

datatype event =
    CallIssuesList
  | CallGetAuthenticated
  | CallSearch jsstring
  | CallTasksForProject jsstring
  | CallAddNewTask jsstring jsstring jsstring jsstring
  | CallMarkTaskComplete jsstring
  | ConsoleLog jsstring
  | ConsoleError error
  | ConsoleErrorMessage error
  | ConsoleLogError error

text \<open>What \<open>main\<close> reads of a task returned by \<open>omnifocus.tasksForProject\<close>.\<close>

record OmniFocusTask =
  id :: jsstring
  name :: jsstring

text \<open>
  The collaborators are outside \<open>main.js\<close>, so they are parameters. Each call returns a
  promise; its outcome may depend on everything that happened before (the trace) and on
  the arguments. A fetch yields the rejection reason or the data; an action
  (\<open>addNewTask\<close>, \<open>markTaskComplete\<close>) yields \<open>None\<close> when its promise fulfils and the
  reason when it rejects. \<open>Promise.all\<close> rejects with the reason of the promise that
  rejects first in time, which the program does not decide: \<open>firstRejection\<close> picks it
  among the reasons.
\<close>

record collaborators =
  issuesList :: "event list \<Rightarrow> error + Issue list"
  getAuthenticated :: "event list \<Rightarrow> error + jsstring"
  searchIssuesAndPullRequests :: "event list \<Rightarrow> jsstring \<Rightarrow> error + PullRequest list"
  tasksForProject :: "event list \<Rightarrow> jsstring \<Rightarrow> error + OmniFocusTask list"
  addNewTask :: "event list \<Rightarrow> jsstring \<Rightarrow> jsstring \<Rightarrow> jsstring \<Rightarrow> jsstring \<Rightarrow> error option"
  markTaskComplete :: "event list \<Rightarrow> jsstring \<Rightarrow> error option"
  firstRejection :: "error list \<Rightarrow> error"

fun rejections :: "error option list \<Rightarrow> error list" where
  "rejections [] = []"
| "rejections (None # ps) = rejections ps"
| "rejections (Some e # ps) = e # rejections ps"

text \<open>
  The \<open>.map\<close> of \<open>addNewIssues\<close> (lines 150 to 153): for each planned item it prints
  \<open>Adding issue: ...\<close> and calls \<open>omnifocus.addNewTask\<close>, keeping the promise. Nothing is
  awaited inside the loop.
\<close>

fun addTasks ::
  "collaborators \<Rightarrow> jsstring \<Rightarrow> jsstring \<Rightarrow> PotentialTask list \<Rightarrow> event list
     \<Rightarrow> error option list \<times> event list" where
  "addTasks w omnifocusProject ofTag [] tr = ([], tr)"
| "addTasks w omnifocusProject ofTag (iss # rest) tr =
     (let tr1 = tr @ [ConsoleLog (str ''Adding issue: '' @ PotentialTask.prefix iss)];
          p = addNewTask w tr1 omnifocusProject (PotentialTask.title iss) ofTag
                (PotentialTask.body iss);
          tr2 = tr1 @ [CallAddNewTask omnifocusProject (PotentialTask.title iss) ofTag
                  (PotentialTask.body iss)];
          (ps, tr3) = addTasks w omnifocusProject ofTag rest tr2
      in (p # ps, tr3))"

text \<open>
  \<open>addNewIssues\<close> (lines 140 to 161): filter, map, print the count, await
  \<open>Promise.all\<close>; a rejection is caught and its message printed with \<open>console.error\<close>.
  The function returns the trace; it never throws.
\<close>

definition addNewIssues ::
  "collaborators \<Rightarrow> jsstring \<Rightarrow> jsstring \<Rightarrow> CurrentTask list \<Rightarrow> PotentialTask list
     \<Rightarrow> event list \<Rightarrow> event list" where
  "addNewIssues w omnifocusProject ofTag currentTasks issues tr =
     (let (addTaskPromises, tr1) =
            addTasks w omnifocusProject ofTag (planCreations issues currentTasks) tr;
          tr2 = tr1 @ [ConsoleLog (str ''Waiting for '' @ digits (length addTaskPromises) @
                         str '' tasks to be added...'')]
      in case rejections addTaskPromises of
           [] \<Rightarrow> tr2
         | e # es \<Rightarrow> tr2 @ [ConsoleErrorMessage (firstRejection w (e # es))])"

text \<open>The \<open>.map\<close> of \<open>completeMissingIssues\<close> (lines 182 to 185).\<close>

fun completeTasks ::
  "collaborators \<Rightarrow> CurrentTask list \<Rightarrow> event list \<Rightarrow> error option list \<times> event list" where
  "completeTasks w [] tr = ([], tr)"
| "completeTasks w (t # rest) tr =
     (let tr1 = tr @ [ConsoleLog (str ''Mark complete: '' @ CurrentTask.title t)];
          p = markTaskComplete w tr1 (CurrentTask.id t);
          tr2 = tr1 @ [CallMarkTaskComplete (CurrentTask.id t)];
          (ps, tr3) = completeTasks w rest tr2
      in (p # ps, tr3))"

text \<open>
  \<open>completeMissingIssues\<close> (lines 169 to 192); its catch prints the error with
  \<open>console.log\<close>.
\<close>

definition completeMissingIssues ::
  "collaborators \<Rightarrow> CurrentTask list \<Rightarrow> PotentialTask list \<Rightarrow> event list \<Rightarrow> event list" where
  "completeMissingIssues w currentTasks issues tr =
     (let (removeTaskPromises, tr1) =
            completeTasks w (planRetirements currentTasks issues) tr;
          tr2 = tr1 @ [ConsoleLog (str ''Waiting for '' @ digits (length removeTaskPromises) @
                         str '' tasks to be completed...'')]
      in case rejections removeTaskPromises of
           [] \<Rightarrow> tr2
         | e # es \<Rightarrow> tr2 @ [ConsoleLogError (firstRejection w (e # es))])"


definition newTaskTag :: jsstring where
  "newTaskTag = str ''github''"


definition omnifocusIssuesProject :: jsstring where
  "omnifocusIssuesProject = str ''GitHub Issues''"





text \<open>The calls in a trace that create a task, and those that complete one.\<close>

fun isCreate :: "event \<Rightarrow> bool" where
  "isCreate (CallAddNewTask p t g b) = True"
| "isCreate e = False"

fun isComplete :: "event \<Rightarrow> bool" where
  "isComplete (CallMarkTaskComplete i) = True"
| "isComplete e = False"

text \<open>
  Collaborators for the examples: the issue fetch is refused, the search returns one pull
  request of another host, and every action on OmniFocus fails.
\<close>

definition failingWorld :: collaborators where
  "failingWorld =
     \<lparr>issuesList = (\<lambda>tr. Inl (Rejection (str ''ECONNRESET''))),
      getAuthenticated = (\<lambda>tr. Inr (str ''me'')),
      searchIssuesAndPullRequests = (\<lambda>tr q.
        Inr [\<lparr>html_url = str ''https://github.com/acme/widgets/pull/12'', number = 12,
               title = str ''Fix''\<rparr>]),
      tasksForProject = (\<lambda>tr p. Inr []),
      addNewTask = (\<lambda>tr p t g b. Some (Rejection (str ''osascript failed''))),
      markTaskComplete = (\<lambda>tr i. Some (Rejection (str ''osascript failed''))),
      firstRejection = (\<lambda>es. case es of [] \<Rightarrow> TypeError | e # es' \<Rightarrow> e)\<rparr>"



section \<open>Basic facts\<close>

lemma startsWith_prefix: "startsWith s p \<longleftrightarrow> Sublist.prefix p s"
  by (induction s p rule: startsWith.induct) auto

lemma startsWith_append: "startsWith (p @ s) p"
  by (simp add: startsWith_prefix)

lemma set_planCreations:
  "set (planCreations R L) =
     {r \<in> set R. \<forall>l \<in> set L. \<not> startsWith (CurrentTask.title l) (PotentialTask.prefix r)}"
  by (auto simp: planCreations_def list_ex_iff)

lemma set_planRetirements:
  "set (planRetirements L R) =
     {l \<in> set L. \<forall>r \<in> set R. \<not> startsWith (CurrentTask.title l) (PotentialTask.prefix r)}"
  by (auto simp: planRetirements_def list_ex_iff)

section \<open>The matcher and the language of the pattern\<close>

lemma repeatMatcher_last:
  "repeatMatcher c (\<lambda>prev s caps. Some caps) prev s acc caps
     = Some (caps @ [acc @ takeWhile (\<lambda>x. x \<noteq> c) s])"
  by (induction s arbitrary: prev acc) simp_all

lemma repeatMatcher_then_Chr:
  "repeatMatcher c (step (Chr c) k) prev s acc caps
     = (case dropWhile (\<lambda>x. x \<noteq> c) s of
          [] \<Rightarrow> None
        | y # ys \<Rightarrow> k (Some c) ys (caps @ [acc @ takeWhile (\<lambda>x. x \<noteq> c) s]))"
proof (induction s arbitrary: prev acc)
  case Nil
  show ?case by simp
next
  case (Cons x xs)
  show ?case
  proof (cases "x = c")
    case True
    then show ?thesis by simp
  next
    case False
    then have "repeatMatcher c (step (Chr c) k) prev (x # xs) acc caps
        = repeatMatcher c (step (Chr c) k) (Some x) xs (acc @ [x]) caps"
      by (simp split: option.split)
    with False show ?thesis
      by (simp add: Cons.IH cong: list.case_cong)
  qed
qed

lemma group_last:
  "step (GroupPlusNot c) (\<lambda>prev s caps. Some caps) prev s caps
     = (if takeWhile (\<lambda>x. x \<noteq> c) s = [] then None
        else Some (caps @ [takeWhile (\<lambda>x. x \<noteq> c) s]))"
  by (cases s) (simp_all add: repeatMatcher_last)

lemma group_then_Chr:
  "step (GroupPlusNot c) (step (Chr c) k) prev s caps
     = (if takeWhile (\<lambda>x. x \<noteq> c) s = [] then None
        else (case dropWhile (\<lambda>x. x \<noteq> c) s of
                [] \<Rightarrow> None
              | y # ys \<Rightarrow> k (Some c) ys (caps @ [takeWhile (\<lambda>x. x \<noteq> c) s])))"
proof (cases s)
  case Nil
  then show ?thesis by simp
next
  case (Cons a list)
  show ?thesis
  proof (cases "a = c")
    case True
    with Cons show ?thesis by simp
  next
    case False
    with Cons show ?thesis
      by (simp add: repeatMatcher_then_Chr cong: list.case_cong)
  qed
qed

lemma matchItems_segments:
  "matchItems [GroupPlusNot slash, Chr slash, GroupPlusNot slash] prev s [] = pathSegments s"
proof (cases "dropWhile (\<lambda>x. x \<noteq> slash) s")
  case Nil
  then show ?thesis
    by (simp add: group_then_Chr pathSegments_def Let_def del: dropWhile_eq_Nil_conv)
next
  case (Cons y ys)
  then show ?thesis
    by (simp add: group_then_Chr group_last pathSegments_def Let_def)
qed

lemma pathSegments_Some:
  "pathSegments s = Some caps \<longleftrightarrow>
     (\<exists>org repo rest. s = org @ slash # repo @ rest \<and> org \<noteq> [] \<and> slash \<notin> set org \<and>
        repo \<noteq> [] \<and> slash \<notin> set repo \<and> (rest = [] \<or> hd rest = slash) \<and> caps = [org, repo])"
  (is "?l \<longleftrightarrow> ?r")
proof
  assume ?l
  let ?org = "takeWhile (\<lambda>x. x \<noteq> slash) s"
  let ?s' = "dropWhile (\<lambda>x. x \<noteq> slash) s"
  from \<open>?l\<close> have org: "?org \<noteq> []"
    by (auto simp: pathSegments_def Let_def split: if_splits)
  from \<open>?l\<close> obtain y ys where s': "?s' = y # ys"
    by (auto simp: pathSegments_def Let_def split: if_splits list.splits)
  let ?repo = "takeWhile (\<lambda>x. x \<noteq> slash) ys"
  let ?rest = "dropWhile (\<lambda>x. x \<noteq> slash) ys"
  from \<open>?l\<close> s' have repo: "?repo \<noteq> []" and caps: "caps = [?org, ?repo]"
    by (auto simp: pathSegments_def Let_def split: if_splits)
  have y: "y = slash"
    using hd_dropWhile [of "\<lambda>x. x \<noteq> slash" s] s' by simp
  have "s = ?org @ ?s'" by simp
  also have "?s' = slash # ?repo @ ?rest" using s' y by simp
  finally have s: "s = ?org @ slash # ?repo @ ?rest" .
  have n1: "slash \<notin> set ?org" using set_takeWhileD by fastforce
  have n2: "slash \<notin> set ?repo" using set_takeWhileD by fastforce
  have r: "?rest = [] \<or> hd ?rest = slash"
    using hd_dropWhile [of "\<lambda>x. x \<noteq> slash" ys] by auto
  show ?r using s org n1 repo n2 r caps by blast
next
  assume ?r
  then obtain org repo rest where s: "s = org @ slash # repo @ rest" and org: "org \<noteq> []"
    and n1: "slash \<notin> set org" and repo: "repo \<noteq> []" and n2: "slash \<notin> set repo"
    and r: "rest = [] \<or> hd rest = slash" and caps: "caps = [org, repo]" by blast
  have t1: "takeWhile (\<lambda>x. x \<noteq> slash) s = org"
    unfolding s using n1 by (subst takeWhile_append2) auto
  have d1: "dropWhile (\<lambda>x. x \<noteq> slash) s = slash # repo @ rest"
    unfolding s using n1 by (subst dropWhile_append2) auto
  have t2: "takeWhile (\<lambda>x. x \<noteq> slash) (repo @ rest) = repo"
    using n2 r by (subst takeWhile_append2) (auto simp: takeWhile_eq_Nil_iff)
  show ?l
    by (simp add: pathSegments_def t1 d1 t2 org repo caps)
qed

lemma step_Chr_Some:
  "step (Chr c) k prev s caps = Some r \<longleftrightarrow> (\<exists>xs. s = c # xs \<and> k (Some c) xs caps = Some r)"
  by (cases s) auto

lemma step_NotChr_Some:
  "step (NotChr c) k prev s caps = Some r \<longleftrightarrow>
     (\<exists>x xs. s = x # xs \<and> x \<noteq> c \<and> k (Some x) xs caps = Some r)"
  by (cases s) auto

lemma matchItems_pattern:
  "matchItems pattern prev s [] = Some caps \<longleftrightarrow>
     atLineStart prev \<and>
     (\<exists>c1 c2 t. s = urlHead c1 c2 @ t \<and> c1 \<noteq> 0 \<and> c2 \<noteq> 0 \<and> pathSegments t = Some caps)"
proof -
  have segs: "step (GroupPlusNot slash) (step (Chr slash)
        (step (GroupPlusNot slash) (\<lambda>prev s caps. Some caps))) p t [] = pathSegments t" for p t
    using matchItems_segments [of p t] by simp
  show ?thesis
    by (auto simp: pattern_def str_def urlHead_def step_Chr_Some step_NotChr_Some segs)
qed

lemma pathSegments_defined:
  "(\<exists>caps. pathSegments t = Some caps) \<longleftrightarrow>
     (\<exists>org repo rest. t = org @ slash # repo @ rest \<and> org \<noteq> [] \<and> slash \<notin> set org \<and>
        repo \<noteq> [] \<and> slash \<notin> set repo)"
  (is "?l \<longleftrightarrow> ?r")
proof
  assume ?l
  then show ?r unfolding pathSegments_Some by blast
next
  assume ?r
  then obtain org repo rest where t: "t = org @ slash # repo @ rest" and org: "org \<noteq> []"
    and n1: "slash \<notin> set org" and repo: "repo \<noteq> []" and n2: "slash \<notin> set repo" by blast
  let ?repo = "repo @ takeWhile (\<lambda>x. x \<noteq> slash) rest"
  let ?rest = "dropWhile (\<lambda>x. x \<noteq> slash) rest"
  have "t = org @ slash # ?repo @ ?rest" using t by simp
  moreover have "?repo \<noteq> []" using repo by simp
  moreover have "slash \<notin> set ?repo" using n2 set_takeWhileD by fastforce
  moreover have "?rest = [] \<or> hd ?rest = slash"
    using hd_dropWhile [of "\<lambda>x. x \<noteq> slash" rest] by auto
  ultimately have "pathSegments t = Some [org, ?repo]"
    unfolding pathSegments_Some using org n1 by blast
  then show ?l by blast
qed

lemma prevOf_last: "prevOf prev pre = (if pre = [] then prev else Some (last pre))"
  by (induction pre arbitrary: prev) auto

lemma regExpExec_first:
  "matchItems p prev s [] = Some r \<Longrightarrow> regExpExec p prev s = Some r"
  by (cases s) simp_all

lemma regExpExec_None_iff:
  "regExpExec p prev s = None \<longleftrightarrow>
     (\<forall>pre suf. s = pre @ suf \<longrightarrow> matchItems p (prevOf prev pre) suf [] = None)"
proof (induction s arbitrary: prev)
  case Nil
  show ?case by simp
next
  case (Cons x xs)
  have "regExpExec p prev (x # xs) = None \<longleftrightarrow>
          matchItems p prev (x # xs) [] = None \<and> regExpExec p (Some x) xs = None"
    by (simp split: option.split)
  also have "\<dots> \<longleftrightarrow> matchItems p prev (x # xs) [] = None \<and>
      (\<forall>pre suf. xs = pre @ suf \<longrightarrow> matchItems p (prevOf (Some x) pre) suf [] = None)"
    by (simp only: Cons.IH)
  also have "\<dots> \<longleftrightarrow>
      (\<forall>pre suf. x # xs = pre @ suf \<longrightarrow> matchItems p (prevOf prev pre) suf [] = None)"
  proof (intro iffI allI impI)
    fix pre suf
    assume a: "matchItems p prev (x # xs) [] = None \<and>
      (\<forall>pre suf. xs = pre @ suf \<longrightarrow> matchItems p (prevOf (Some x) pre) suf [] = None)"
      and e: "x # xs = pre @ suf"
    show "matchItems p (prevOf prev pre) suf [] = None"
    proof (cases pre)
      case Nil
      with a e show ?thesis by simp
    next
      case (Cons y ys)
      with e have "y = x" "xs = ys @ suf" by simp_all
      with a Cons show ?thesis by simp
    qed
  next
    assume a: "\<forall>pre suf. x # xs = pre @ suf \<longrightarrow> matchItems p (prevOf prev pre) suf [] = None"
    have "matchItems p prev (x # xs) [] = None"
      using a [rule_format, of "[]" "x # xs"] by simp
    moreover have "matchItems p (prevOf (Some x) pre) suf [] = None" if "xs = pre @ suf" for pre suf
      using a [rule_format, of "x # pre" suf] that by simp
    ultimately show "matchItems p prev (x # xs) [] = None \<and>
      (\<forall>pre suf. xs = pre @ suf \<longrightarrow> matchItems p (prevOf (Some x) pre) suf [] = None)"
      by blast
  qed
  finally show ?case .
qed

lemma regExpExec_Some_leftmost:
  "regExpExec p prev s = Some r \<Longrightarrow>
     \<exists>pre suf. s = pre @ suf \<and> matchItems p (prevOf prev pre) suf [] = Some r \<and>
       (\<forall>pre' suf'. s = pre' @ suf' \<and> length pre' < length pre \<longrightarrow>
          matchItems p (prevOf prev pre') suf' [] = None)"
proof (induction s arbitrary: prev)
  case Nil
  then show ?case
    by (intro exI [of _ "[]"]) simp
next
  case (Cons x xs)
  show ?case
  proof (cases "matchItems p prev (x # xs) []")
    case (Some r')
    with Cons.prems show ?thesis
      by (intro exI [of _ "[]"] exI [of _ "x # xs"]) simp
  next
    case None
    with Cons.prems have "regExpExec p (Some x) xs = Some r" by simp
    from Cons.IH [OF this] obtain pre suf where xs: "xs = pre @ suf"
      and m: "matchItems p (prevOf (Some x) pre) suf [] = Some r"
      and l: "\<forall>pre' suf'. xs = pre' @ suf' \<and> length pre' < length pre \<longrightarrow>
          matchItems p (prevOf (Some x) pre') suf' [] = None"
      by blast
    have "matchItems p (prevOf prev pre') suf' [] = None"
      if e: "x # xs = pre' @ suf'" and n: "length pre' < length (x # pre)" for pre' suf'
    proof (cases pre')
      case Nil
      with e None show ?thesis by simp
    next
      case (Cons y ys)
      with e n have "xs = ys @ suf'" "length ys < length pre" "y = x" by simp_all
      with l Cons show ?thesis by simp
    qed
    with xs m show ?thesis
      by (intro exI [of _ "x # pre"] exI [of _ suf]) simp
  qed
qed

lemma atLineStart_prevOf:
  "atLineStart (prevOf None pre) \<longleftrightarrow> pre = [] \<or> lineTerminator (last pre)"
  by (simp add: prevOf_last)


lemma matchItems_None_iff:
  "matchItems pattern (prevOf None pre) suf [] = None \<longleftrightarrow> \<not> matchesAt pre suf"
proof -
  have "matchItems pattern (prevOf None pre) suf [] = None \<longleftrightarrow>
      \<not> (\<exists>caps. matchItems pattern (prevOf None pre) suf [] = Some caps)"
    by auto
  also have "\<dots> \<longleftrightarrow> \<not> (atLineStart (prevOf None pre) \<and>
      (\<exists>c1 c2 t. suf = urlHead c1 c2 @ t \<and> c1 \<noteq> 0 \<and> c2 \<noteq> 0 \<and>
         (\<exists>caps. pathSegments t = Some caps)))"
    unfolding matchItems_pattern by blast
  also have "\<dots> \<longleftrightarrow> \<not> matchesAt pre suf"
    unfolding pathSegments_defined matchesAt_def atLineStart_prevOf by blast
  finally show ?thesis .
qed

lemma exec_None_iff: "regExpExec pattern None u = None \<longleftrightarrow> \<not> matchesPattern u"
  unfolding regExpExec_None_iff matchItems_None_iff matchesPattern_def by blast

lemma exec_Some_tied:
  assumes "regExpExec pattern None u = Some m"
  shows "\<exists>pre c1 c2 org repo rest.
           u = pre @ urlHead c1 c2 @ org @ slash # repo @ rest \<and>
           (pre = [] \<or> lineTerminator (last pre)) \<and> c1 \<noteq> 0 \<and> c2 \<noteq> 0 \<and>
           org \<noteq> [] \<and> slash \<notin> set org \<and> repo \<noteq> [] \<and> slash \<notin> set repo \<and>
           (rest = [] \<or> hd rest = slash) \<and>
           (\<forall>pre' suf'. u = pre' @ suf' \<and> length pre' < length pre \<longrightarrow> \<not> matchesAt pre' suf') \<and>
           m = [org, repo]"
proof -
  from regExpExec_Some_leftmost [OF assms] obtain pre suf where u: "u = pre @ suf"
    and s: "matchItems pattern (prevOf None pre) suf [] = Some m"
    and l: "\<forall>pre' suf'. u = pre' @ suf' \<and> length pre' < length pre \<longrightarrow>
          matchItems pattern (prevOf None pre') suf' [] = None"
    by blast
  from s obtain c1 c2 t where a: "atLineStart (prevOf None pre)" and suf: "suf = urlHead c1 c2 @ t"
    and c: "c1 \<noteq> 0" "c2 \<noteq> 0" and p: "pathSegments t = Some m"
    unfolding matchItems_pattern by blast
  from p obtain org repo rest where t: "t = org @ slash # repo @ rest" and o: "org \<noteq> []"
    "slash \<notin> set org" "repo \<noteq> []" "slash \<notin> set repo" "rest = [] \<or> hd rest = slash"
    "m = [org, repo]"
    unfolding pathSegments_Some by blast
  have 1: "u = pre @ urlHead c1 c2 @ org @ slash # repo @ rest"
    using u suf t by simp
  have 2: "pre = [] \<or> lineTerminator (last pre)"
    using a by (simp add: atLineStart_prevOf)
  have 3: "\<forall>pre' suf'. u = pre' @ suf' \<and> length pre' < length pre \<longrightarrow> \<not> matchesAt pre' suf'"
    using l by (simp add: matchItems_None_iff)
  from 1 2 c o 3 show ?thesis by blast
qed

lemma wellFormed_prefix:
  "wellFormed u \<Longrightarrow> Sublist.prefix (str ''https://github.ibm.com/'') u"
  by (auto simp: wellFormed_def)

lemma urlHead_dots: "urlHead 0x2E 0x2E = str ''https://github.ibm.com/''"
  by (simp add: urlHead_def str_def)


lemma exec_at_start:
  assumes "c1 \<noteq> 0" "c2 \<noteq> 0" "org \<noteq> []" "slash \<notin> set org" "repo \<noteq> []" "slash \<notin> set repo"
    and "rest = [] \<or> hd rest = slash"
  shows "regExpExec pattern None (urlHead c1 c2 @ org @ slash # repo @ rest) = Some [org, repo]"
proof -
  have "pathSegments (org @ slash # repo @ rest) = Some [org, repo]"
    unfolding pathSegments_Some using assms by blast
  then have "matchItems pattern None (urlHead c1 c2 @ org @ slash # repo @ rest) [] = Some [org, repo]"
    unfolding matchItems_pattern using assms by auto
  then show ?thesis by (rule regExpExec_first)
qed

section \<open>Claims about the filters\<close>

text \<open>
  C1. \<open>planCreations\<close> returns exactly the remote items for which no local title starts
  with the item's prefix: an item is in the result iff it is in the remote list and no
  local item's title starts with its prefix. The result is a subsequence of the remote
  list, in the remote list's order.
\<close>

theorem planCreations_exact:
  "(r \<in> set (planCreations R L) \<longleftrightarrow>
      r \<in> set R \<and> \<not> (\<exists>l \<in> set L. startsWith (CurrentTask.title l) (PotentialTask.prefix r)))
   \<and> subseq (planCreations R L) R"
  by (auto simp: planCreations_def list_ex_iff)

theorem planCreations_exact_witness:
  "planCreations
     [\<lparr>prefix = str ''a/b#1'', title = str ''a/b#1 One'', body = []\<rparr>,
      \<lparr>prefix = str ''a/b#2'', title = str ''a/b#2 Two'', body = []\<rparr>,
      \<lparr>prefix = str ''a/b#3'', title = str ''a/b#3 Three'', body = []\<rparr>]
     [\<lparr>CurrentTask.id = str ''x'', title = str ''a/b#2 Two (edited)''\<rparr>]
   = [\<lparr>prefix = str ''a/b#1'', title = str ''a/b#1 One'', body = []\<rparr>,
      \<lparr>prefix = str ''a/b#3'', title = str ''a/b#3 Three'', body = []\<rparr>]
   \<and> \<lparr>prefix = str ''a/b#2'', title = str ''a/b#2 Two'', body = []\<rparr>
       \<notin> set (planCreations
         [\<lparr>prefix = str ''a/b#1'', title = str ''a/b#1 One'', body = []\<rparr>,
          \<lparr>prefix = str ''a/b#2'', title = str ''a/b#2 Two'', body = []\<rparr>,
          \<lparr>prefix = str ''a/b#3'', title = str ''a/b#3 Three'', body = []\<rparr>]
         [\<lparr>CurrentTask.id = str ''x'', title = str ''a/b#2 Two (edited)''\<rparr>])"
  using planCreations_exact
    [of "\<lparr>prefix = str ''a/b#2'', title = str ''a/b#2 Two'', body = []\<rparr>"
        "[\<lparr>prefix = str ''a/b#1'', title = str ''a/b#1 One'', body = []\<rparr>,
          \<lparr>prefix = str ''a/b#2'', title = str ''a/b#2 Two'', body = []\<rparr>,
          \<lparr>prefix = str ''a/b#3'', title = str ''a/b#3 Three'', body = []\<rparr>]"
        "[\<lparr>CurrentTask.id = str ''x'', title = str ''a/b#2 Two (edited)''\<rparr>]"]
  by (simp add: planCreations_def str_def)

text \<open>
  C2. \<open>planRetirements\<close> returns exactly the local items whose title has no remote
  prefix as a literal prefix: a local item is in the result iff it is in the local list
  and no remote item's prefix starts its title. With an empty remote list the result is
  the whole local list.
\<close>

theorem planRetirements_exact:
  "(l \<in> set (planRetirements L R) \<longleftrightarrow>
      l \<in> set L \<and> \<not> (\<exists>r \<in> set R. startsWith (CurrentTask.title l) (PotentialTask.prefix r)))
   \<and> planRetirements L [] = L"
  by (auto simp: planRetirements_def list_ex_iff)

text \<open>
  C6. The empty-input boundaries: no remote items, nothing to create; no local items,
  every remote item is created; no local items, nothing to retire; no remote items,
  every local item is retired. Both filters are total: they have no failing branch.
\<close>

theorem empty_input_boundaries:
  "planCreations [] L = [] \<and> planCreations R [] = R \<and>
   planRetirements [] R = [] \<and> planRetirements L [] = L"
  by (simp add: planCreations_def planRetirements_def)

text \<open>\<open>planCreations\<close> keeps the remote items that are not matched.\<close>

lemma planCreations_complement:
  "planCreations R L = filter (\<lambda>r. \<not> matched r L) R"
  by (simp add: planCreations_def matched_def)

text \<open>
  C5, as stated, fails on a remote list that holds an entry twice: nothing is matched,
  so both copies are planned and the plan has a duplicate.
\<close>

theorem remote_partition_duplicates_counterexample:
  "\<not> (set (planCreations
           [\<lparr>prefix = str ''a/b#1'', title = str ''a/b#1 One'', body = []\<rparr>,
            \<lparr>prefix = str ''a/b#1'', title = str ''a/b#1 One'', body = []\<rparr>] [])
        \<inter> set (matchedSubset
           [\<lparr>prefix = str ''a/b#1'', title = str ''a/b#1 One'', body = []\<rparr>,
            \<lparr>prefix = str ''a/b#1'', title = str ''a/b#1 One'', body = []\<rparr>] []) = {}
      \<and> distinct (planCreations
           [\<lparr>prefix = str ''a/b#1'', title = str ''a/b#1 One'', body = []\<rparr>,
            \<lparr>prefix = str ''a/b#1'', title = str ''a/b#1 One'', body = []\<rparr>] [])
      \<and> distinct (matchedSubset
           [\<lparr>prefix = str ''a/b#1'', title = str ''a/b#1 One'', body = []\<rparr>,
            \<lparr>prefix = str ''a/b#1'', title = str ''a/b#1 One'', body = []\<rparr>] [])
      \<and> set (planCreations
           [\<lparr>prefix = str ''a/b#1'', title = str ''a/b#1 One'', body = []\<rparr>,
            \<lparr>prefix = str ''a/b#1'', title = str ''a/b#1 One'', body = []\<rparr>] [])
        \<union> set (matchedSubset
           [\<lparr>prefix = str ''a/b#1'', title = str ''a/b#1 One'', body = []\<rparr>,
            \<lparr>prefix = str ''a/b#1'', title = str ''a/b#1 One'', body = []\<rparr>] [])
        = set [\<lparr>prefix = str ''a/b#1'', title = str ''a/b#1 One'', body = []\<rparr>,
               \<lparr>prefix = str ''a/b#1'', title = str ''a/b#1 One'', body = []\<rparr>])"
  by (simp add: planCreations_def)

text \<open>
  C5, amended. The plan and the matched subset of the remote list are disjoint, their
  union is the remote list, every entry of the remote list lands in exactly one of them
  with its multiplicity, and neither has a duplicate entry when the remote list has none.
\<close>

theorem remote_partition:
  "set (planCreations R L) \<inter> set (matchedSubset R L) = {}
   \<and> set (planCreations R L) \<union> set (matchedSubset R L) = set R
   \<and> mset (planCreations R L) + mset (matchedSubset R L) = mset R
   \<and> (distinct R \<longrightarrow> distinct (planCreations R L) \<and> distinct (matchedSubset R L))"
proof -
  have "mset (matchedSubset R L) + mset (planCreations R L) = mset R"
    unfolding planCreations_complement matchedSubset_def mset_filter
    by (rule multiset_partition [symmetric])
  then show ?thesis
    by (auto simp: planCreations_complement matchedSubset_def add.commute)
qed

theorem remote_partition_witness:
  "distinct [\<lparr>prefix = str ''a/b#1'', title = str ''a/b#1 One'', body = []\<rparr>,
             \<lparr>prefix = str ''a/b#2'', title = str ''a/b#2 Two'', body = []\<rparr>]
   \<and> distinct (planCreations
        [\<lparr>prefix = str ''a/b#1'', title = str ''a/b#1 One'', body = []\<rparr>,
         \<lparr>prefix = str ''a/b#2'', title = str ''a/b#2 Two'', body = []\<rparr>]
        [\<lparr>CurrentTask.id = str ''x'', title = str ''a/b#2 Two''\<rparr>])
   \<and> distinct (matchedSubset
        [\<lparr>prefix = str ''a/b#1'', title = str ''a/b#1 One'', body = []\<rparr>,
         \<lparr>prefix = str ''a/b#2'', title = str ''a/b#2 Two'', body = []\<rparr>]
        [\<lparr>CurrentTask.id = str ''x'', title = str ''a/b#2 Two''\<rparr>])"
proof -
  have d: "distinct [\<lparr>prefix = str ''a/b#1'', title = str ''a/b#1 One'', body = []\<rparr>,
             \<lparr>prefix = str ''a/b#2'', title = str ''a/b#2 Two'', body = []\<rparr>]"
    by (simp add: str_def)
  from d remote_partition
    [of "[\<lparr>prefix = str ''a/b#1'', title = str ''a/b#1 One'', body = []\<rparr>,
          \<lparr>prefix = str ''a/b#2'', title = str ''a/b#2 Two'', body = []\<rparr>]"
        "[\<lparr>CurrentTask.id = str ''x'', title = str ''a/b#2 Two''\<rparr>]"]
  show ?thesis by blast
qed

text \<open>
  C4. Idempotence of creation. Let every remote title be the item's prefix, a space and
  a remote title, as \<open>main\<close> builds it. Let the local list after the creations keep the
  old items and hold, for each planned item, a task whose title is the planned item's
  title. Then planning again against the same remote list plans nothing.
\<close>

theorem planCreations_idempotent:
  assumes titles: "\<forall>r \<in> set R. \<exists>t. PotentialTask.title r = PotentialTask.prefix r @ str '' '' @ t"
    and kept: "set L \<subseteq> set L'"
    and created: "\<forall>r \<in> set (planCreations R L).
                    \<exists>l \<in> set L'. CurrentTask.title l = PotentialTask.title r"
  shows "planCreations R L' = []"
proof -
  have "\<exists>l \<in> set L'. startsWith (CurrentTask.title l) (PotentialTask.prefix r)"
    if r: "r \<in> set R" for r
  proof (cases "r \<in> set (planCreations R L)")
    case True
    with created obtain l where l: "l \<in> set L'" "CurrentTask.title l = PotentialTask.title r"
      by blast
    from titles r obtain t where "PotentialTask.title r = PotentialTask.prefix r @ str '' '' @ t"
      by blast
    with l have "startsWith (CurrentTask.title l) (PotentialTask.prefix r)"
      by (simp add: startsWith_append)
    with l show ?thesis by blast
  next
    case False
    with r obtain l where "l \<in> set L" "startsWith (CurrentTask.title l) (PotentialTask.prefix r)"
      unfolding set_planCreations by blast
    with kept show ?thesis by blast
  qed
  then have "set (planCreations R L') = {}"
    unfolding set_planCreations by blast
  then show ?thesis by simp
qed

theorem planCreations_idempotent_witness:
  "planCreations
     [\<lparr>prefix = str ''a/b#1'', title = str ''a/b#1 One'', body = []\<rparr>,
      \<lparr>prefix = str ''a/b#2'', title = str ''a/b#2 Two'', body = []\<rparr>]
     [\<lparr>CurrentTask.id = str ''x'', title = str ''a/b#2 Two''\<rparr>]
   = [\<lparr>prefix = str ''a/b#1'', title = str ''a/b#1 One'', body = []\<rparr>]
   \<and> planCreations
     [\<lparr>prefix = str ''a/b#1'', title = str ''a/b#1 One'', body = []\<rparr>,
      \<lparr>prefix = str ''a/b#2'', title = str ''a/b#2 Two'', body = []\<rparr>]
     [\<lparr>CurrentTask.id = str ''x'', title = str ''a/b#2 Two''\<rparr>,
      \<lparr>CurrentTask.id = str ''y'', title = str ''a/b#1 One''\<rparr>]
   = []"
proof -
  let ?R = "[\<lparr>prefix = str ''a/b#1'', title = str ''a/b#1 One'', body = []\<rparr>,
      \<lparr>prefix = str ''a/b#2'', title = str ''a/b#2 Two'', body = []\<rparr>]"
  let ?L = "[\<lparr>CurrentTask.id = str ''x'', title = str ''a/b#2 Two''\<rparr>]"
  let ?L' = "[\<lparr>CurrentTask.id = str ''x'', title = str ''a/b#2 Two''\<rparr>,
      \<lparr>CurrentTask.id = str ''y'', title = str ''a/b#1 One''\<rparr>]"
  have p: "planCreations ?R ?L = [\<lparr>prefix = str ''a/b#1'', title = str ''a/b#1 One'', body = []\<rparr>]"
    by (simp add: planCreations_def str_def)
  have t: "\<forall>r \<in> set ?R. \<exists>t. PotentialTask.title r = PotentialTask.prefix r @ str '' '' @ t"
    by (simp add: str_def)
  have k: "set ?L \<subseteq> set ?L'" by simp
  have c: "\<forall>r \<in> set (planCreations ?R ?L). \<exists>l \<in> set ?L'. CurrentTask.title l = PotentialTask.title r"
    unfolding p by simp
  from p planCreations_idempotent [OF t k c] show ?thesis by simp
qed

section \<open>Claims about the identity extractor and the constructed tasks\<close>

lemma pr_prefix_Inl: "pr_prefix t = Inl e \<Longrightarrow> e = TypeError"
  by (auto simp: pr_prefix_def split: option.splits)

lemma prTask_Inl: "prTask pr = Inl e \<Longrightarrow> e = TypeError"
  by (auto simp: prTask_def split: sum.splits dest: pr_prefix_Inl)

lemma prTask_Inr:
  "prTask pr = Inr t \<Longrightarrow>
     pr_prefix pr = Inr (PotentialTask.prefix t) \<and>
     PotentialTask.title t = PotentialTask.prefix t @ str '' '' @ PullRequest.title pr"
  by (auto simp: prTask_def split: sum.splits)

lemma prTasks_Inr:
  "prTasks items = Inr prs \<Longrightarrow> \<forall>t \<in> set prs. \<exists>pr \<in> set items. prTask pr = Inr t"
  by (induction items arbitrary: prs) (auto split: sum.splits)

lemma prTasks_propagates:
  "t \<in> set items \<Longrightarrow> pr_prefix t = Inl TypeError \<Longrightarrow> prTasks items = Inl TypeError"
proof (induction items)
  case Nil
  then show ?case by simp
next
  case (Cons pr items)
  show ?case
  proof (cases "prTask pr")
    case (Inl e)
    then show ?thesis using prTask_Inl [OF Inl] by simp
  next
    case (Inr p)
    with Cons.prems have "t \<in> set items"
      by (auto simp: prTask_def)
    from Cons.IH [OF this Cons.prems(2)] Inr show ?thesis by simp
  qed
qed

lemma capture_pair: "capture [a, b] 0 = a" "capture [a, b] 1 = b"
  by simp_all

text \<open>
  C3, amended. When the URL does not match the regular expression of the source, the
  extractor fails with a TypeError (the read of \<open>m[1]\<close> on \<open>null\<close>), and the error is not
  skipped: the map over any list of fetched pull requests that holds such an item fails
  with it. When the URL is well-formed (it begins with \<open>https://github.ibm.com/\<close>, an
  organisation segment, \<open>/\<close> and a repository segment), the extractor does not fail and
  returns \<open>org/repo#number\<close> for that organisation and that repository. In general, when
  the URL matches the regular expression, the identifier is built from the two segments
  of the leftmost match: the first line start of the URL where the pattern stands.
\<close>

theorem pr_prefix_malformed_or_identifier:
  "(\<not> matchesPattern (PullRequest.html_url t) \<longrightarrow>
      pr_prefix t = Inl TypeError \<and>
      (\<forall>items. t \<in> set items \<longrightarrow> prTasks items = Inl TypeError))
   \<and> (wellFormed (PullRequest.html_url t) \<longrightarrow>
      (\<exists>org repo rest.
         PullRequest.html_url t = str ''https://github.ibm.com/'' @ org @ slash # repo @ rest \<and>
         org \<noteq> [] \<and> slash \<notin> set org \<and> repo \<noteq> [] \<and> slash \<notin> set repo \<and>
         (rest = [] \<or> hd rest = slash) \<and>
         pr_prefix t =
           Inr (org @ str ''/'' @ repo @ str ''#'' @ numberToString (PullRequest.number t))))
   \<and> (matchesPattern (PullRequest.html_url t) \<longrightarrow>
      (\<exists>pre c1 c2 org repo rest.
         PullRequest.html_url t = pre @ urlHead c1 c2 @ org @ slash # repo @ rest \<and>
         (pre = [] \<or> lineTerminator (last pre)) \<and> c1 \<noteq> 0 \<and> c2 \<noteq> 0 \<and>
         org \<noteq> [] \<and> slash \<notin> set org \<and> repo \<noteq> [] \<and> slash \<notin> set repo \<and>
         (rest = [] \<or> hd rest = slash) \<and>
         (\<forall>pre' suf'. PullRequest.html_url t = pre' @ suf' \<and> length pre' < length pre \<longrightarrow>
            \<not> matchesAt pre' suf') \<and>
         pr_prefix t =
           Inr (org @ str ''/'' @ repo @ str ''#'' @ numberToString (PullRequest.number t))))"
proof (intro conjI impI)
  assume "\<not> matchesPattern (PullRequest.html_url t)"
  then have "regExpExec pattern None (PullRequest.html_url t) = None"
    by (simp add: exec_None_iff)
  then show "pr_prefix t = Inl TypeError"
    by (simp add: pr_prefix_def)
  then show "\<forall>items. t \<in> set items \<longrightarrow> prTasks items = Inl TypeError"
    by (blast intro: prTasks_propagates)
next
  assume "wellFormed (PullRequest.html_url t)"
  then obtain org repo rest where
    u: "PullRequest.html_url t = str ''https://github.ibm.com/'' @ org @ slash # repo @ rest"
    and s: "org \<noteq> []" "slash \<notin> set org" "repo \<noteq> []" "slash \<notin> set repo"
      "rest = [] \<or> hd rest = slash"
    unfolding wellFormed_def by blast
  have d: "(0x2E :: jschar) \<noteq> 0" by simp
  have "regExpExec pattern None (urlHead 0x2E 0x2E @ org @ slash # repo @ rest)
      = Some [org, repo]"
    by (rule exec_at_start [OF d d s])
  then have "regExpExec pattern None (PullRequest.html_url t) = Some [org, repo]"
    unfolding u urlHead_dots .
  then have "pr_prefix t =
      Inr (org @ str ''/'' @ repo @ str ''#'' @ numberToString (PullRequest.number t))"
    by (simp add: pr_prefix_def capture_pair)
  with u s show "\<exists>org repo rest.
         PullRequest.html_url t = str ''https://github.ibm.com/'' @ org @ slash # repo @ rest \<and>
         org \<noteq> [] \<and> slash \<notin> set org \<and> repo \<noteq> [] \<and> slash \<notin> set repo \<and>
         (rest = [] \<or> hd rest = slash) \<and>
         pr_prefix t =
           Inr (org @ str ''/'' @ repo @ str ''#'' @ numberToString (PullRequest.number t))"
    by blast
next
  assume "matchesPattern (PullRequest.html_url t)"
  then obtain m where m: "regExpExec pattern None (PullRequest.html_url t) = Some m"
    using exec_None_iff [of "PullRequest.html_url t"] by auto
  from exec_Some_tied [OF m] obtain pre c1 c2 org repo rest where
    u: "PullRequest.html_url t = pre @ urlHead c1 c2 @ org @ slash # repo @ rest"
    and s: "pre = [] \<or> lineTerminator (last pre)" "c1 \<noteq> 0" "c2 \<noteq> 0"
      "org \<noteq> []" "slash \<notin> set org" "repo \<noteq> []" "slash \<notin> set repo"
      "rest = [] \<or> hd rest = slash"
    and l: "\<forall>pre' suf'. PullRequest.html_url t = pre' @ suf' \<and> length pre' < length pre \<longrightarrow>
            \<not> matchesAt pre' suf'"
    and c: "m = [org, repo]"
    by blast
  have "pr_prefix t =
      Inr (org @ str ''/'' @ repo @ str ''#'' @ numberToString (PullRequest.number t))"
    by (simp add: pr_prefix_def m c capture_pair)
  with u s l show "\<exists>pre c1 c2 org repo rest.
         PullRequest.html_url t = pre @ urlHead c1 c2 @ org @ slash # repo @ rest \<and>
         (pre = [] \<or> lineTerminator (last pre)) \<and> c1 \<noteq> 0 \<and> c2 \<noteq> 0 \<and>
         org \<noteq> [] \<and> slash \<notin> set org \<and> repo \<noteq> [] \<and> slash \<notin> set repo \<and>
         (rest = [] \<or> hd rest = slash) \<and>
         (\<forall>pre' suf'. PullRequest.html_url t = pre' @ suf' \<and> length pre' < length pre \<longrightarrow>
            \<not> matchesAt pre' suf') \<and>
         pr_prefix t =
           Inr (org @ str ''/'' @ repo @ str ''#'' @ numberToString (PullRequest.number t))"
    by blast
qed

theorem pr_prefix_malformed_or_identifier_witness:
  "\<not> matchesPattern (str ''https://github.com/acme/widgets/pull/12'')
   \<and> pr_prefix \<lparr>html_url = str ''https://github.com/acme/widgets/pull/12'', number = 12,
        title = str ''Fix''\<rparr> = Inl TypeError
   \<and> prTasks [\<lparr>html_url = str ''https://github.ibm.com/acme/widgets/pull/7'', number = 7,
                 title = str ''Add''\<rparr>,
               \<lparr>html_url = str ''https://github.com/acme/widgets/pull/12'', number = 12,
                 title = str ''Fix''\<rparr>] = Inl TypeError
   \<and> wellFormed (str ''https://github.ibm.com/acme/widgets/pull/7'')
   \<and> matchesPattern (str ''https://github.ibm.com/acme/widgets/pull/7'')
   \<and> pr_prefix \<lparr>html_url = str ''https://github.ibm.com/acme/widgets/pull/7'', number = 7,
        title = str ''Add''\<rparr> = Inr (str ''acme/widgets#7'')"
proof -
  let ?bad = "\<lparr>html_url = str ''https://github.com/acme/widgets/pull/12'', number = 12,
        title = str ''Fix''\<rparr>"
  let ?good = "\<lparr>html_url = str ''https://github.ibm.com/acme/widgets/pull/7'', number = 7,
        title = str ''Add''\<rparr>"
  have b: "\<not> matchesPattern (str ''https://github.com/acme/widgets/pull/12'')"
    unfolding exec_None_iff [symmetric] by (simp add: pattern_def str_def slash_def)
  have g: "matchesPattern (str ''https://github.ibm.com/acme/widgets/pull/7'')"
    using exec_None_iff [of "str ''https://github.ibm.com/acme/widgets/pull/7''"]
    by (simp add: pattern_def str_def slash_def)
  have "str ''https://github.ibm.com/acme/widgets/pull/7''
      = str ''https://github.ibm.com/'' @ str ''acme'' @ slash # str ''widgets'' @ str ''/pull/7''
      \<and> str ''acme'' \<noteq> [] \<and> slash \<notin> set (str ''acme'') \<and> str ''widgets'' \<noteq> []
      \<and> slash \<notin> set (str ''widgets'')
      \<and> (str ''/pull/7'' = [] \<or> hd (str ''/pull/7'') = slash)"
    by (simp add: str_def slash_def)
  then have w: "wellFormed (str ''https://github.ibm.com/acme/widgets/pull/7'')"
    unfolding wellFormed_def by blast
  have e: "pr_prefix ?good = Inr (str ''acme/widgets#7'')"
    by (simp add: pr_prefix_def numberToString_def pattern_def str_def slash_def)
  have b': "\<not> matchesPattern (PullRequest.html_url ?bad)" using b by simp
  have g': "matchesPattern (PullRequest.html_url ?good)" using g by simp
  have w': "wellFormed (PullRequest.html_url ?good)" using w by simp
  from pr_prefix_malformed_or_identifier [of ?bad] b'
  have 1: "pr_prefix ?bad = Inl TypeError"
    and a: "\<forall>items. ?bad \<in> set items \<longrightarrow> prTasks items = Inl TypeError"
    by blast+
  have "?bad \<in> set [?good, ?bad]" by simp
  with a have 2: "prTasks [?good, ?bad] = Inl TypeError" by blast
  from pr_prefix_malformed_or_identifier [of ?good] w'
  have 3: "\<exists>org repo rest. PullRequest.html_url ?good
        = str ''https://github.ibm.com/'' @ org @ slash # repo @ rest \<and>
      pr_prefix ?good
        = Inr (org @ str ''/'' @ repo @ str ''#'' @ numberToString (PullRequest.number ?good))"
    by blast
  from pr_prefix_malformed_or_identifier [of ?good] g'
  have 4: "\<exists>pre c1 c2 org repo rest. PullRequest.html_url ?good
        = pre @ urlHead c1 c2 @ org @ slash # repo @ rest \<and>
      pr_prefix ?good
        = Inr (org @ str ''/'' @ repo @ str ''#'' @ numberToString (PullRequest.number ?good))"
    by blast
  from 3 4 b g w 1 2 e show ?thesis by blast
qed

text \<open>
  C3, as stated, fails twice. A URL of another host is malformed and the extractor
  fails on it, but with a TypeError, not with \<open>MalformedReferenceError\<close>. And a URL of the
  host \<open>githubXibmYcom\<close> is malformed, yet the extractor does not fail on it: it returns
  an identifier.
\<close>

theorem pr_prefix_malformed_counterexample:
  "\<not> wellFormed (str ''https://github.com/acme/widgets/pull/12'')
   \<and> pr_prefix \<lparr>html_url = str ''https://github.com/acme/widgets/pull/12'', number = 12,
        title = str ''Fix''\<rparr> = Inl TypeError
   \<and> pr_prefix \<lparr>html_url = str ''https://github.com/acme/widgets/pull/12'', number = 12,
        title = str ''Fix''\<rparr> \<noteq> Inl MalformedReferenceError
   \<and> \<not> wellFormed (str ''https://githubXibmYcom/acme/widgets/pull/12'')
   \<and> pr_prefix \<lparr>html_url = str ''https://githubXibmYcom/acme/widgets/pull/12'', number = 12,
        title = str ''Fix''\<rparr> = Inr (str ''acme/widgets#12'')"
proof -
  have "\<not> Sublist.prefix (str ''https://github.ibm.com/'')
      (str ''https://github.com/acme/widgets/pull/12'')"
    by (simp add: str_def)
  then have 1: "\<not> wellFormed (str ''https://github.com/acme/widgets/pull/12'')"
    using wellFormed_prefix by blast
  have "\<not> Sublist.prefix (str ''https://github.ibm.com/'')
      (str ''https://githubXibmYcom/acme/widgets/pull/12'')"
    by (simp add: str_def)
  then have 2: "\<not> wellFormed (str ''https://githubXibmYcom/acme/widgets/pull/12'')"
    using wellFormed_prefix by blast
  have 3: "pr_prefix \<lparr>html_url = str ''https://github.com/acme/widgets/pull/12'',
      number = 12, title = str ''Fix''\<rparr> = Inl TypeError"
    by (simp add: pr_prefix_def pattern_def str_def slash_def)
  have 4: "pr_prefix \<lparr>html_url = str ''https://githubXibmYcom/acme/widgets/pull/12'',
      number = 12, title = str ''Fix''\<rparr> = Inr (str ''acme/widgets#12'')"
    by (simp add: pr_prefix_def numberToString_def pattern_def str_def slash_def)
  from 1 2 3 4 show ?thesis by simp
qed

text \<open>
  C10. The host pattern is lenient: whatever code units other than NUL stand in the
  place of the two dots of \<open>github.ibm.com\<close>, a URL that begins with that host, a
  non-empty organisation segment, \<open>/\<close> and a non-empty repository segment (ending at the
  next \<open>/\<close> or at the end of the URL) matches, and \<open>org/repo#number\<close> is returned. The
  instance below is the host \<open>githubXibmYcom\<close>.
\<close>

theorem pr_prefix_lenient_host:
  assumes "c1 \<noteq> 0" and "c2 \<noteq> 0"
    and "org \<noteq> []" and "slash \<notin> set org" and "repo \<noteq> []" and "slash \<notin> set repo"
    and "rest = [] \<or> hd rest = slash"
    and "PullRequest.html_url t =
           str ''https://github'' @ c1 # str ''ibm'' @ c2 # str ''com/'' @ org @ slash # repo @ rest"
  shows "pr_prefix t = Inr (org @ str ''/'' @ repo @ str ''#'' @ numberToString (PullRequest.number t))"
proof -
  have "PullRequest.html_url t = urlHead c1 c2 @ org @ slash # repo @ rest"
    using assms(8) by (simp add: urlHead_def)
  then have "regExpExec pattern None (PullRequest.html_url t) = Some [org, repo]"
    using exec_at_start [OF assms(1-7)] by simp
  then show ?thesis
    by (simp add: pr_prefix_def capture_pair del: digits.simps)
qed

theorem pr_prefix_lenient_host_witness:
  "str ''githubXibmYcom'' \<noteq> str ''github.ibm.com''
   \<and> pr_prefix \<lparr>html_url = str ''https://githubXibmYcom/acme/widgets/pull/12'', number = 12,
        title = str ''Fix''\<rparr> = Inr (str ''acme/widgets#12'')"
proof -
  have "pr_prefix \<lparr>html_url = str ''https://githubXibmYcom/acme/widgets/pull/12'', number = 12,
        title = str ''Fix''\<rparr>
      = Inr (str ''acme'' @ str ''/'' @ str ''widgets'' @ str ''#'' @
          numberToString (PullRequest.number \<lparr>html_url = str ''https://githubXibmYcom/acme/widgets/pull/12'',
            number = 12, title = str ''Fix''\<rparr>))"
    by (rule pr_prefix_lenient_host [where ?c1.0 = "0x58" and ?c2.0 = "0x59"
          and rest = "str ''/pull/12''"])
       (simp_all add: str_def slash_def)
  then show ?thesis by (simp add: str_def numberToString_def)
qed

text \<open>
  C9. Every PotentialTask that \<open>main\<close> constructs, from a fetched issue or from a fetched
  pull request, has as title its prefix, one space and the title of the remote item it
  was built from; so its title starts with its prefix.
\<close>

theorem constructed_title:
  "(\<forall>t \<in> set (map issueTask results). \<exists>iss \<in> set results.
       PotentialTask.title t = PotentialTask.prefix t @ str '' '' @ Issue.title iss \<and>
       startsWith (PotentialTask.title t) (PotentialTask.prefix t))
   \<and> (prTasks items = Inr prs \<longrightarrow>
       (\<forall>t \<in> set prs. \<exists>pr \<in> set items.
          PotentialTask.title t = PotentialTask.prefix t @ str '' '' @ PullRequest.title pr \<and>
          startsWith (PotentialTask.title t) (PotentialTask.prefix t)))"
proof (intro conjI impI ballI)
  fix t assume "t \<in> set (map issueTask results)"
  then obtain iss where "iss \<in> set results" "t = issueTask iss" by auto
  then show "\<exists>iss \<in> set results.
       PotentialTask.title t = PotentialTask.prefix t @ str '' '' @ Issue.title iss \<and>
       startsWith (PotentialTask.title t) (PotentialTask.prefix t)"
    by (intro bexI [of _ iss])
       (simp_all add: issueTask_def Let_def startsWith_prefix del: digits.simps)
next
  fix t assume "prTasks items = Inr prs" "t \<in> set prs"
  then obtain pr where pr: "pr \<in> set items" "prTask pr = Inr t"
    using prTasks_Inr by blast
  from prTask_Inr [OF pr(2)]
  have "PotentialTask.title t = PotentialTask.prefix t @ str '' '' @ PullRequest.title pr" by simp
  with pr(1) show "\<exists>pr \<in> set items.
          PotentialTask.title t = PotentialTask.prefix t @ str '' '' @ PullRequest.title pr \<and>
          startsWith (PotentialTask.title t) (PotentialTask.prefix t)"
    by (intro bexI [of _ pr]) (simp_all add: startsWith_append)
qed

theorem constructed_title_witness:
  "map issueTask [\<lparr>full_name = str ''acme/widgets'', number = 12, title = str ''Fix bug'',
                    html_url = str ''https://github.ibm.com/acme/widgets/issues/12''\<rparr>]
     = [\<lparr>prefix = str ''acme/widgets#12'', title = str ''acme/widgets#12 Fix bug'',
          body = str ''https://github.ibm.com/acme/widgets/issues/12''\<rparr>]
   \<and> prTasks [\<lparr>html_url = str ''https://github.ibm.com/acme/widgets/pull/7'', number = 7,
                 title = str ''Add''\<rparr>]
     = Inr [\<lparr>prefix = str ''acme/widgets#7'', title = str ''acme/widgets#7 Add'',
              body = str ''https://github.ibm.com/acme/widgets/pull/7''\<rparr>]
   \<and> startsWith (str ''acme/widgets#12 Fix bug'') (str ''acme/widgets#12'')
   \<and> startsWith (str ''acme/widgets#7 Add'') (str ''acme/widgets#7'')"
proof -
  let ?results = "[\<lparr>full_name = str ''acme/widgets'', number = 12, title = str ''Fix bug'',
                    html_url = str ''https://github.ibm.com/acme/widgets/issues/12''\<rparr>]"
  let ?items = "[\<lparr>html_url = str ''https://github.ibm.com/acme/widgets/pull/7'', number = 7,
                 title = str ''Add''\<rparr>]"
  let ?i = "\<lparr>prefix = str ''acme/widgets#12'', title = str ''acme/widgets#12 Fix bug'',
          body = str ''https://github.ibm.com/acme/widgets/issues/12''\<rparr>"
  let ?p = "\<lparr>prefix = str ''acme/widgets#7'', title = str ''acme/widgets#7 Add'',
              body = str ''https://github.ibm.com/acme/widgets/pull/7''\<rparr>"
  have i: "map issueTask ?results = [?i]"
    by (simp add: issueTask_def numberToString_def str_def)
  have p: "prTasks ?items = Inr [?p]"
    by (simp add: prTask_def pr_prefix_def numberToString_def pattern_def str_def slash_def)
  from constructed_title [of ?results ?items "[?p]"] p
  have "\<forall>t \<in> set [?i]. startsWith (PotentialTask.title t) (PotentialTask.prefix t)"
    and "\<forall>t \<in> set [?p]. startsWith (PotentialTask.title t) (PotentialTask.prefix t)"
    unfolding i by blast+
  then have "startsWith (str ''acme/widgets#12 Fix bug'') (str ''acme/widgets#12'')"
    and "startsWith (str ''acme/widgets#7 Add'') (str ''acme/widgets#7'')"
    by simp_all
  with i p show ?thesis by blast
qed

section \<open>Claims about the orchestrator\<close>

lemma addTasks_calls:
  "filter isCreate (snd (addTasks w p g plan tr))
     = filter isCreate tr @
       map (\<lambda>iss. CallAddNewTask p (PotentialTask.title iss) g (PotentialTask.body iss)) plan"
  by (induction plan arbitrary: tr) (simp_all add: Let_def case_prod_unfold)

lemma completeTasks_calls:
  "filter isComplete (snd (completeTasks w plan tr))
     = filter isComplete tr @ map (\<lambda>t. CallMarkTaskComplete (CurrentTask.id t)) plan"
  by (induction plan arbitrary: tr) (simp_all add: Let_def case_prod_unfold)





text \<open>
  C7. Per-action failure isolation. Whatever the collaborators answer, and so whichever
  create or complete actions fail, the calls that \<open>addNewIssues\<close> issues are exactly the
  planned creations, each once and in order, and the calls that \<open>completeMissingIssues\<close>
  issues are exactly the planned retirements, each once and in order: a failing action
  aborts no sibling and is not issued again.
\<close>

theorem batch_actions_all_issued:
  "filter isCreate (addNewIssues w omnifocusProject ofTag currentTasks issues tr)
     = filter isCreate tr @
       map (\<lambda>iss. CallAddNewTask omnifocusProject (PotentialTask.title iss) ofTag
              (PotentialTask.body iss))
         (planCreations issues currentTasks)
   \<and> filter isComplete (completeMissingIssues w currentTasks issues tr)
     = filter isComplete tr @
       map (\<lambda>t. CallMarkTaskComplete (CurrentTask.id t)) (planRetirements currentTasks issues)"
proof
  have "filter isCreate (addNewIssues w omnifocusProject ofTag currentTasks issues tr)
      = filter isCreate (snd (addTasks w omnifocusProject ofTag
          (planCreations issues currentTasks) tr))"
    by (simp add: addNewIssues_def Let_def case_prod_unfold split: list.splits del: digits.simps)
  then show "filter isCreate (addNewIssues w omnifocusProject ofTag currentTasks issues tr)
     = filter isCreate tr @
       map (\<lambda>iss. CallAddNewTask omnifocusProject (PotentialTask.title iss) ofTag
              (PotentialTask.body iss))
         (planCreations issues currentTasks)"
    by (simp only: addTasks_calls)
next
  have "filter isComplete (completeMissingIssues w currentTasks issues tr)
      = filter isComplete (snd (completeTasks w (planRetirements currentTasks issues) tr))"
    by (simp add: completeMissingIssues_def Let_def case_prod_unfold split: list.splits
        del: digits.simps)
  then show "filter isComplete (completeMissingIssues w currentTasks issues tr)
     = filter isComplete tr @
       map (\<lambda>t. CallMarkTaskComplete (CurrentTask.id t)) (planRetirements currentTasks issues)"
    by (simp only: completeTasks_calls)
qed

theorem batch_actions_all_issued_witness:
  "addNewIssues failingWorld omnifocusIssuesProject newTaskTag []
     [\<lparr>prefix = str ''a/b#1'', title = str ''a/b#1 One'', body = str ''u1''\<rparr>,
      \<lparr>prefix = str ''a/b#2'', title = str ''a/b#2 Two'', body = str ''u2''\<rparr>] []
   = [ConsoleLog (str ''Adding issue: a/b#1''),
      CallAddNewTask (str ''GitHub Issues'') (str ''a/b#1 One'') (str ''github'') (str ''u1''),
      ConsoleLog (str ''Adding issue: a/b#2''),
      CallAddNewTask (str ''GitHub Issues'') (str ''a/b#2 Two'') (str ''github'') (str ''u2''),
      ConsoleLog (str ''Waiting for 2 tasks to be added...''),
      ConsoleErrorMessage (Rejection (str ''osascript failed''))]
   \<and> filter isCreate (addNewIssues failingWorld omnifocusIssuesProject newTaskTag []
     [\<lparr>prefix = str ''a/b#1'', title = str ''a/b#1 One'', body = str ''u1''\<rparr>,
      \<lparr>prefix = str ''a/b#2'', title = str ''a/b#2 Two'', body = str ''u2''\<rparr>] [])
   = [CallAddNewTask (str ''GitHub Issues'') (str ''a/b#1 One'') (str ''github'') (str ''u1''),
      CallAddNewTask (str ''GitHub Issues'') (str ''a/b#2 Two'') (str ''github'') (str ''u2'')]
   \<and> completeMissingIssues failingWorld
     [\<lparr>CurrentTask.id = str ''x1'', title = str ''a/b#7 Old''\<rparr>,
      \<lparr>CurrentTask.id = str ''x2'', title = str ''a/b#8 Older''\<rparr>] [] []
   = [ConsoleLog (str ''Mark complete: a/b#7 Old''), CallMarkTaskComplete (str ''x1''),
      ConsoleLog (str ''Mark complete: a/b#8 Older''), CallMarkTaskComplete (str ''x2''),
      ConsoleLog (str ''Waiting for 2 tasks to be completed...''),
      ConsoleLogError (Rejection (str ''osascript failed''))]"
proof -
  let ?issues = "[\<lparr>prefix = str ''a/b#1'', title = str ''a/b#1 One'', body = str ''u1''\<rparr>,
      \<lparr>prefix = str ''a/b#2'', title = str ''a/b#2 Two'', body = str ''u2''\<rparr>]"
  have p: "planCreations ?issues [] = ?issues"
    by (simp add: planCreations_def)
  have a: "addNewIssues failingWorld omnifocusIssuesProject newTaskTag [] ?issues []
   = [ConsoleLog (str ''Adding issue: a/b#1''),
      CallAddNewTask (str ''GitHub Issues'') (str ''a/b#1 One'') (str ''github'') (str ''u1''),
      ConsoleLog (str ''Adding issue: a/b#2''),
      CallAddNewTask (str ''GitHub Issues'') (str ''a/b#2 Two'') (str ''github'') (str ''u2''),
      ConsoleLog (str ''Waiting for 2 tasks to be added...''),
      ConsoleErrorMessage (Rejection (str ''osascript failed''))]"
    by (simp add: addNewIssues_def planCreations_def failingWorld_def
        omnifocusIssuesProject_def newTaskTag_def str_def)
  have c: "completeMissingIssues failingWorld
     [\<lparr>CurrentTask.id = str ''x1'', title = str ''a/b#7 Old''\<rparr>,
      \<lparr>CurrentTask.id = str ''x2'', title = str ''a/b#8 Older''\<rparr>] [] []
   = [ConsoleLog (str ''Mark complete: a/b#7 Old''), CallMarkTaskComplete (str ''x1''),
      ConsoleLog (str ''Mark complete: a/b#8 Older''), CallMarkTaskComplete (str ''x2''),
      ConsoleLog (str ''Waiting for 2 tasks to be completed...''),
      ConsoleLogError (Rejection (str ''osascript failed''))]"
    by (simp add: completeMissingIssues_def planRetirements_def failingWorld_def str_def)
  from batch_actions_all_issued [of failingWorld omnifocusIssuesProject newTaskTag "[]" ?issues "[]"]
  have "filter isCreate (addNewIssues failingWorld omnifocusIssuesProject newTaskTag [] ?issues [])
    = [CallAddNewTask (str ''GitHub Issues'') (str ''a/b#1 One'') (str ''github'') (str ''u1''),
       CallAddNewTask (str ''GitHub Issues'') (str ''a/b#2 Two'') (str ''github'') (str ''u2'')]"
    by (simp add: p omnifocusIssuesProject_def newTaskTag_def)
  with a c show ?thesis by blast
qed















end
